theory Spec2Isabelle
  imports Main "HOL-Library.Word" "HOL-Library.Monad_Syntax"
begin

unbundle bit_operations_syntax

section \<open>The PS/2 scan code decoder of converter/ps2\_usb/matrix.c\<close>

text \<open>
  The embedding follows \<^verbatim>\<open>matrix.c\<close> for the build in which neither
  \<^verbatim>\<open>EXTRA_BUTTONS_ENABLE\<close> nor \<^verbatim>\<open>THUMBSTICK_ENABLE\<close> is defined, which is
  the scan code decoder and the key matrix alone.

  \<^item> \<^verbatim>\<open>uint8_t\<close> is \<open>8 word\<close>.
  \<^item> The file-level variables \<^verbatim>\<open>matrix\<close>, \<^verbatim>\<open>is_modified\<close> and the function-level
    static \<^verbatim>\<open>state\<close> are the fields of one record that every function takes and
    returns.
  \<^item> The array \<^verbatim>\<open>matrix\<close> is a list of bytes. C gives no meaning to a read or a
    write past the end of an array, so every array access is checked and the
    functions return \<open>None\<close> where the C program would leave its array.
  \<^item> The calls to the collaborators \<^verbatim>\<open>clear_keyboard()\<close> and
    \<^verbatim>\<open>led_set(host_keyboard_leds())\<close> are appended to a log kept in the record.
    The diagnostic output (\<^verbatim>\<open>print\<close>, \<^verbatim>\<open>xprintf\<close>) changes nothing that the
    decoder reads and is left out, as is the constant return value 1 of
    \<^verbatim>\<open>matrix_scan\<close>.
  \<^item> The transport is the input of a tick: the byte that \<^verbatim>\<open>ps2_host_recv()\<close>
    returned and the value \<^verbatim>\<open>ps2_error\<close> holds after that call.
\<close>

type_synonym uint8_t = "8 word"

text \<open>
  Modelled from the spec: the macro \<^verbatim>\<open>MATRIX_ROWS\<close> comes from a configuration header
  that is not part of the sources at hand. The specification sizes the matrix "to
  cover the full 0--255 coordinate space divided into 8-bit rows", and the comment
  above the array speaks of a "256(32x8)cell matrix": 32 rows.
\<close>

definition MATRIX_ROWS :: nat where
  "MATRIX_ROWS = 32"

text \<open>
  Modelled from the spec: \<^verbatim>\<open>bitpop\<close> is declared in \<^verbatim>\<open>util.h\<close>, which is not part
  of the sources at hand. The specification calls it the population count of a row:
  the number of bits set in the byte.
\<close>

definition bitpop :: "uint8_t \<Rightarrow> uint8_t" where
  "bitpop bits = of_nat (length (filter (bit bits) [0..<8]))"

definition ROW :: "uint8_t \<Rightarrow> uint8_t" where
  "ROW code = drop_bit 3 code"

definition COL :: "uint8_t \<Rightarrow> uint8_t" where
  "COL code = code AND 0x07"

definition F7 :: uint8_t where
  "F7 = 0x83"

definition PRINT_SCREEN :: uint8_t where
  "PRINT_SCREEN = 0xFC"

definition PAUSE :: uint8_t where
  "PAUSE = 0xFE"

datatype scan_state =
    INIT
  | F0
  | E0
  | E0_F0
  | E1
  | E1_14
  | E1_14_77
  | E1_14_77_E1
  | E1_14_77_E1_F0
  | E1_14_77_E1_F0_14
  | E1_14_77_E1_F0_14_F0
  | E0_7E
  | E0_7E_E0
  | E0_7E_E0_F0

datatype call = ClearKeyboard | LedSet

record decoder =
  matrix :: "uint8_t list"
  is_modified :: bool
  state :: scan_state
  calls :: "call list"

subsection \<open>Array accesses\<close>

definition array_get :: "uint8_t list \<Rightarrow> uint8_t \<Rightarrow> uint8_t option" where
  "array_get a i = (if unat i < length a then Some (a ! unat i) else None)"

definition array_set :: "uint8_t list \<Rightarrow> uint8_t \<Rightarrow> uint8_t \<Rightarrow> uint8_t list option" where
  "array_set a i v = (if unat i < length a then Some (a[unat i := v]) else None)"

subsection \<open>The key matrix\<close>

text \<open>
  \<^verbatim>\<open>matrix[row] & (1<<col)\<close>, read as a truth value. The C expression is computed
  on \<^verbatim>\<open>int\<close>; a row has eight bits, so only the low eight bits of the mask can
  meet a bit of the row, and the test on bytes gives the same answer.
\<close>

definition matrix_is_on :: "uint8_t list \<Rightarrow> uint8_t \<Rightarrow> uint8_t \<Rightarrow> bool option" where
  "matrix_is_on m row col =
     do { r \<leftarrow> array_get m row;
          Some (r AND push_bit (unat col) 1 \<noteq> 0) }"

definition matrix_get_row :: "uint8_t list \<Rightarrow> uint8_t \<Rightarrow> uint8_t option" where
  "matrix_get_row m row = array_get m row"

definition matrix_make :: "uint8_t \<Rightarrow> decoder \<Rightarrow> decoder option" where
  "matrix_make code s =
     do { on \<leftarrow> matrix_is_on (matrix s) (ROW code) (COL code);
          if \<not> on then
            do { r \<leftarrow> array_get (matrix s) (ROW code);
                 m' \<leftarrow> array_set (matrix s) (ROW code) (r OR push_bit (unat (COL code)) 1);
                 Some (s\<lparr>matrix := m', is_modified := True\<rparr>) }
          else Some s }"

definition matrix_break :: "uint8_t \<Rightarrow> decoder \<Rightarrow> decoder option" where
  "matrix_break code s =
     do { on \<leftarrow> matrix_is_on (matrix s) (ROW code) (COL code);
          if on then
            do { r \<leftarrow> array_get (matrix s) (ROW code);
                 m' \<leftarrow> array_set (matrix s) (ROW code) (r AND NOT (push_bit (unat (COL code)) 1));
                 Some (s\<lparr>matrix := m', is_modified := True\<rparr>) }
          else Some s }"

text \<open>The loop of \<^verbatim>\<open>matrix_clear\<close> (and of \<^verbatim>\<open>matrix_init\<close>), with its counter.\<close>

function matrix_clear_loop :: "uint8_t \<Rightarrow> uint8_t list \<Rightarrow> uint8_t list option" where
  "matrix_clear_loop i m =
     (if unat i < MATRIX_ROWS then
        do { m' \<leftarrow> array_set m i 0x00;
             matrix_clear_loop (i + 1) m' }
      else Some m)"
  by pat_completeness auto
termination
  by (relation "measure (\<lambda>(i, m). MATRIX_ROWS - unat i)")
     (auto simp: MATRIX_ROWS_def unat_word_ariths)

declare matrix_clear_loop.simps [simp del]

definition matrix_clear :: "decoder \<Rightarrow> decoder option" where
  "matrix_clear s =
     do { m' \<leftarrow> matrix_clear_loop 0 (matrix s);
          Some (s\<lparr>matrix := m'\<rparr>) }"

text \<open>The loop of \<^verbatim>\<open>matrix_key_count\<close>; \<^verbatim>\<open>count\<close> is a byte and wraps.\<close>

function matrix_key_count_loop :: "uint8_t \<Rightarrow> uint8_t \<Rightarrow> uint8_t list \<Rightarrow> uint8_t option" where
  "matrix_key_count_loop i count m =
     (if unat i < MATRIX_ROWS then
        do { r \<leftarrow> array_get m i;
             matrix_key_count_loop (i + 1) (count + bitpop r) m }
      else Some count)"
  by pat_completeness auto
termination
  by (relation "measure (\<lambda>(i, count, m). MATRIX_ROWS - unat i)")
     (auto simp: MATRIX_ROWS_def unat_word_ariths)

declare matrix_key_count_loop.simps [simp del]

definition matrix_key_count :: "uint8_t list \<Rightarrow> uint8_t option" where
  "matrix_key_count m = matrix_key_count_loop 0 0 m"

subsection \<open>The collaborators\<close>

definition clear_keyboard :: "decoder \<Rightarrow> decoder" where
  "clear_keyboard s = s\<lparr>calls := calls s @ [ClearKeyboard]\<rparr>"

definition led_set :: "decoder \<Rightarrow> decoder" where
  "led_set s = s\<lparr>calls := calls s @ [LedSet]\<rparr>"

subsection \<open>One tick of the decoder\<close>

text \<open>The pseudo break code hack at the head of \<^verbatim>\<open>matrix_scan\<close>.\<close>

definition pseudo_break :: "decoder \<Rightarrow> decoder option" where
  "pseudo_break s =
     do { on \<leftarrow> matrix_is_on (matrix s) (ROW PAUSE) (COL PAUSE);
          if on then matrix_break PAUSE s else Some s }"

text \<open>The \<^verbatim>\<open>switch (state)\<close> of \<^verbatim>\<open>matrix_scan\<close>.\<close>

definition scan_switch :: "uint8_t \<Rightarrow> decoder \<Rightarrow> decoder option" where
  "scan_switch code s =
     (case state s of
        INIT \<Rightarrow>
          if code = 0xE0 then Some (s\<lparr>state := E0\<rparr>)
          else if code = 0xF0 then Some (s\<lparr>state := F0\<rparr>)
          else if code = 0xE1 then Some (s\<lparr>state := E1\<rparr>)
          else if code = 0x83 then
            do { s' \<leftarrow> matrix_make F7 s; Some (s'\<lparr>state := INIT\<rparr>) }
          else if code = 0x84 then
            do { s' \<leftarrow> matrix_make PRINT_SCREEN s; Some (s'\<lparr>state := INIT\<rparr>) }
          else if code = 0x00 then
            do { s' \<leftarrow> matrix_clear s; Some ((clear_keyboard s')\<lparr>state := INIT\<rparr>) }
          else if code = 0xAA \<or> code = 0xFC then
            Some ((led_set s)\<lparr>state := INIT\<rparr>)
          else if code < 0x80 then
            do { s' \<leftarrow> matrix_make code s; Some (s'\<lparr>state := INIT\<rparr>) }
          else
            do { s' \<leftarrow> matrix_clear s; Some ((clear_keyboard s')\<lparr>state := INIT\<rparr>) }
      | E0 \<Rightarrow>
          if code = 0x12 \<or> code = 0x59 then Some (s\<lparr>state := INIT\<rparr>)
          else if code = 0x7E then Some (s\<lparr>state := E0_7E\<rparr>)
          else if code = 0xF0 then Some (s\<lparr>state := E0_F0\<rparr>)
          else if code < 0x80 then
            do { s' \<leftarrow> matrix_make (code OR 0x80) s; Some (s'\<lparr>state := INIT\<rparr>) }
          else
            do { s' \<leftarrow> matrix_clear s; Some ((clear_keyboard s')\<lparr>state := INIT\<rparr>) }
      | F0 \<Rightarrow>
          if code = 0x83 then
            do { s' \<leftarrow> matrix_break F7 s; Some (s'\<lparr>state := INIT\<rparr>) }
          else if code = 0x84 then
            do { s' \<leftarrow> matrix_break PRINT_SCREEN s; Some (s'\<lparr>state := INIT\<rparr>) }
          else if code = 0xF0 then
            do { s' \<leftarrow> matrix_clear s; Some (clear_keyboard s') }
          else if code < 0x80 then
            do { s' \<leftarrow> matrix_break code s; Some (s'\<lparr>state := INIT\<rparr>) }
          else
            do { s' \<leftarrow> matrix_clear s; Some ((clear_keyboard s')\<lparr>state := INIT\<rparr>) }
      | E0_F0 \<Rightarrow>
          if code = 0x12 \<or> code = 0x59 then Some (s\<lparr>state := INIT\<rparr>)
          else if code < 0x80 then
            do { s' \<leftarrow> matrix_break (code OR 0x80) s; Some (s'\<lparr>state := INIT\<rparr>) }
          else
            do { s' \<leftarrow> matrix_clear s; Some ((clear_keyboard s')\<lparr>state := INIT\<rparr>) }
      | E1 \<Rightarrow>
          if code = 0x14 then Some (s\<lparr>state := E1_14\<rparr>)
          else Some (s\<lparr>state := INIT\<rparr>)
      | E1_14 \<Rightarrow>
          if code = 0x77 then Some (s\<lparr>state := E1_14_77\<rparr>)
          else Some (s\<lparr>state := INIT\<rparr>)
      | E1_14_77 \<Rightarrow>
          if code = 0xE1 then Some (s\<lparr>state := E1_14_77_E1\<rparr>)
          else Some (s\<lparr>state := INIT\<rparr>)
      | E1_14_77_E1 \<Rightarrow>
          if code = 0xF0 then Some (s\<lparr>state := E1_14_77_E1_F0\<rparr>)
          else Some (s\<lparr>state := INIT\<rparr>)
      | E1_14_77_E1_F0 \<Rightarrow>
          if code = 0x14 then Some (s\<lparr>state := E1_14_77_E1_F0_14\<rparr>)
          else Some (s\<lparr>state := INIT\<rparr>)
      | E1_14_77_E1_F0_14 \<Rightarrow>
          if code = 0xF0 then Some (s\<lparr>state := E1_14_77_E1_F0_14_F0\<rparr>)
          else Some (s\<lparr>state := INIT\<rparr>)
      | E1_14_77_E1_F0_14_F0 \<Rightarrow>
          if code = 0x77 then
            do { s' \<leftarrow> matrix_make PAUSE s; Some (s'\<lparr>state := INIT\<rparr>) }
          else Some (s\<lparr>state := INIT\<rparr>)
      | E0_7E \<Rightarrow>
          if code = 0xE0 then Some (s\<lparr>state := E0_7E_E0\<rparr>)
          else Some (s\<lparr>state := INIT\<rparr>)
      | E0_7E_E0 \<Rightarrow>
          if code = 0xF0 then Some (s\<lparr>state := E0_7E_E0_F0\<rparr>)
          else Some (s\<lparr>state := INIT\<rparr>)
      | E0_7E_E0_F0 \<Rightarrow>
          do { s' \<leftarrow> (if code = 0x7E then matrix_make PAUSE s else Some s);
               Some (s'\<lparr>state := INIT\<rparr>) })"

text \<open>
  \<^verbatim>\<open>matrix_scan\<close>: the flag is reset, the pseudo break code is applied, the
  transport is asked for a byte, and the byte is interpreted unless the transport
  raised its error flag.
\<close>

definition matrix_scan :: "uint8_t \<times> uint8_t \<Rightarrow> decoder \<Rightarrow> decoder option" where
  "matrix_scan recv s =
     do { s1 \<leftarrow> pseudo_break (s\<lparr>is_modified := False\<rparr>);
          let (code, ps2_error) = recv in
          if ps2_error = 0 then scan_switch code s1 else Some s1 }"

text \<open>Several ticks in a row, one transport answer for each.\<close>

fun matrix_scan_ticks :: "(uint8_t \<times> uint8_t) list \<Rightarrow> decoder \<Rightarrow> decoder option" where
  "matrix_scan_ticks [] s = Some s"
| "matrix_scan_ticks (recv # rest) s =
     do { s' \<leftarrow> matrix_scan recv s; matrix_scan_ticks rest s' }"

text \<open>Delivering bytes: each byte arrives on a tick of its own, with no transport error.\<close>

definition deliver :: "uint8_t list \<Rightarrow> decoder \<Rightarrow> decoder option" where
  "deliver bytes s = matrix_scan_ticks (map (\<lambda>b. (b, 0)) bytes) s"

text \<open>\<^verbatim>\<open>matrix_init\<close>, as far as the decoder is concerned: every row zero, state \<^verbatim>\<open>INIT\<close>.\<close>

definition matrix_init :: decoder where
  "matrix_init = \<lparr>matrix = replicate MATRIX_ROWS 0x00, is_modified = False, state = INIT, calls = []\<rparr>"

subsection \<open>Reading the matrix as a set of keys\<close>

text \<open>
  The following definitions are not part of the program. They describe what the
  program computes when every array access is inside the array: \<open>key_on\<close> is the
  bit of the cell that belongs to a code, \<open>press\<close>, \<open>release\<close> and \<open>wipe\<close> are
  the outcomes of \<^verbatim>\<open>matrix_make\<close>, \<^verbatim>\<open>matrix_break\<close> and \<^verbatim>\<open>matrix_clear\<close>,
  \<open>popcount8\<close> counts the bits of a row, and \<open>count_on\<close> counts the coordinates at
  which \<^verbatim>\<open>matrix_is_on\<close> answers true.
\<close>

definition matrix_ok :: "decoder \<Rightarrow> bool" where
  "matrix_ok s \<longleftrightarrow> length (matrix s) = MATRIX_ROWS"

definition key_on :: "uint8_t list \<Rightarrow> uint8_t \<Rightarrow> bool" where
  "key_on m code = bit (m ! unat (ROW code)) (unat (COL code))"

definition press :: "uint8_t \<Rightarrow> decoder \<Rightarrow> decoder" where
  "press code s =
     (if key_on (matrix s) code then s
      else s\<lparr>matrix := (matrix s)[unat (ROW code) :=
                 matrix s ! unat (ROW code) OR push_bit (unat (COL code)) 1],
             is_modified := True\<rparr>)"

definition release :: "uint8_t \<Rightarrow> decoder \<Rightarrow> decoder" where
  "release code s =
     (if key_on (matrix s) code then
        s\<lparr>matrix := (matrix s)[unat (ROW code) :=
                 matrix s ! unat (ROW code) AND NOT (push_bit (unat (COL code)) 1)],
          is_modified := True\<rparr>
      else s)"

definition wipe :: "decoder \<Rightarrow> decoder" where
  "wipe s = s\<lparr>matrix := replicate MATRIX_ROWS 0\<rparr>"

definition popcount8 :: "uint8_t \<Rightarrow> nat" where
  "popcount8 r = length (filter (bit r) [0..<8])"

definition count_on :: "uint8_t list \<Rightarrow> nat" where
  "count_on m =
     length (filter (\<lambda>(row, col). matrix_is_on m (of_nat row) (of_nat col) = Some True)
               (List.product [0..<MATRIX_ROWS] [0..<8]))"

subsection \<open>Runs of the module\<close>

text \<open>
  The matrix is a file-level static variable: after power-on it is changed only by
  the entry points of the file. A run is a sequence of calls of \<^verbatim>\<open>matrix_scan\<close>,
  each with the answer of the transport, and of \<^verbatim>\<open>matrix_clear\<close>, started in the
  state that \<^verbatim>\<open>matrix_init\<close> leaves. \<open>cell0_off\<close> is not part of the program: it
  says that the cell of code \<open>0x00\<close> is off, which every run keeps.
\<close>

datatype entry = Scan "uint8_t \<times> uint8_t" | Clear

fun run :: "entry list \<Rightarrow> decoder \<Rightarrow> decoder option" where
  "run [] s = Some s"
| "run (Scan recv # rest) s = do { s' \<leftarrow> matrix_scan recv s; run rest s' }"
| "run (Clear # rest) s = do { s' \<leftarrow> matrix_clear s; run rest s' }"

definition cell0_off :: "decoder \<Rightarrow> bool" where
  "cell0_off s \<longleftrightarrow> matrix_ok s \<and> \<not> key_on (matrix s) 0x00"

section \<open>Rows, columns and codes\<close>

lemma ROW_lt: "unat (ROW code) < 32"
proof -
  have "unat (ROW code) = unat code div 8"
    by (simp add: ROW_def drop_bit_eq_div unat_div)
  moreover have "unat code < 256" using unsigned_less [of code, where ?'a = nat] by simp
  ultimately show ?thesis by simp
qed

lemma seven_mask: "(7 :: uint8_t) = mask 3"
  by (simp add: mask_eq_exp_minus_1)

lemma COL_lt: "unat (COL code) < 8"
proof -
  have "COL code = take_bit 3 code"
    by (simp add: COL_def seven_mask take_bit_eq_mask)
  then have "unat (COL code) = take_bit 3 (unat code)"
    by (simp add: unsigned_take_bit_eq)
  then show ?thesis
    by (simp add: take_bit_eq_mod)
qed

lemma code_split: "code = push_bit 3 (ROW code) OR COL code"
  by (rule bit_eqI) (auto simp: bit_simps ROW_def COL_def seven_mask)

lemma code_eqI: "ROW c = ROW d \<Longrightarrow> COL c = COL d \<Longrightarrow> c = d"
  by (metis code_split)

lemma ROW_in: "unat (ROW code) < MATRIX_ROWS"
  using ROW_lt [of code] by (simp add: MATRIX_ROWS_def)

lemma ROW_low: "c < (0x80 :: uint8_t) \<Longrightarrow> unat (ROW c) < 16"
  by (simp add: ROW_def drop_bit_eq_div unat_div word_less_nat_alt)

lemma ROW_high: "16 \<le> unat (ROW (c OR 0x80))"
proof -
  have "(0x80 :: uint8_t) \<le> c OR 0x80"
    using le_word_or2 [of "0x80" c] by (simp add: or.commute)
  then show ?thesis
    by (simp add: ROW_def drop_bit_eq_div unat_div word_le_nat_alt)
qed

lemma bit_exp8: "n < 8 \<Longrightarrow> bit (2 ^ n :: uint8_t) k \<longleftrightarrow> k = n"
  by (auto simp: bit_simps)

lemma test_exp: "(r :: uint8_t) AND 2 ^ n \<noteq> 0 \<longleftrightarrow> bit r n"
  by (simp add: and_exp_eq_0_iff_not_bit)

lemma unat_COL_eq: "unat (COL c) = unat (COL d) \<longleftrightarrow> COL c = COL d"
  by (simp add: word_unat_eq_iff)

lemma unat_ROW_eq: "unat (ROW c) = unat (ROW d) \<longleftrightarrow> ROW c = ROW d"
  by (simp add: word_unat_eq_iff)

lemma or_exp_and_mask: "((c :: uint8_t) OR 2 ^ n) AND mask n = c AND mask n"
  by (rule bit_eqI) (auto simp: bit_simps)

lemma ext_strip:
  assumes "c < (0x80 :: uint8_t)"
  shows "(c OR 0x80) AND 0x7F = c"
proof -
  have "c AND mask 7 = c"
    using assms less_mask_eq [of c 7] by simp
  then show ?thesis
    using or_exp_and_mask [of c 7] by (simp add: mask_eq_exp_minus_1)
qed

lemma ext_not_pause:
  assumes "c < (0x80 :: uint8_t)" and "c \<noteq> 0x7E"
  shows "c OR 0x80 \<noteq> PAUSE"
proof
  assume "c OR 0x80 = PAUSE"
  then have "(c OR 0x80) AND 0x7F = 0xFE AND 0x7F"
    by (simp add: PAUSE_def)
  then show False
    using assms ext_strip [of c] by simp
qed

lemma pause_codes: "(0x7E :: uint8_t) OR 0x80 = PAUSE"
  by (simp add: PAUSE_def)

lemma low_byte:
  "c < (0x80 :: uint8_t) \<Longrightarrow>
     c \<noteq> 0xE0 \<and> c \<noteq> 0xF0 \<and> c \<noteq> 0xE1 \<and> c \<noteq> 0x83 \<and> c \<noteq> 0x84 \<and> c \<noteq> 0xAA \<and> c \<noteq> 0xFC \<and> c \<noteq> PAUSE"
  by (auto simp: PAUSE_def)

lemma high_byte: "(0x80 :: uint8_t) \<le> b \<Longrightarrow> \<not> b < 0x80 \<and> b \<noteq> 0 \<and> b \<noteq> 0x12 \<and> b \<noteq> 0x59 \<and> b \<noteq> 0x7E"
  by auto

section \<open>The matrix operations stay inside the array\<close>

lemma matrix_is_on_code:
  "length m = MATRIX_ROWS \<Longrightarrow> matrix_is_on m (ROW code) (COL code) = Some (key_on m code)"
  by (simp add: matrix_is_on_def array_get_def ROW_in key_on_def test_exp)

lemma matrix_is_on_literal:
  "length m = MATRIX_ROWS \<Longrightarrow>
   matrix_is_on m (drop_bit 3 code) (code AND 0x07) = Some (key_on m code)"
  using matrix_is_on_code [of m code] by (simp add: ROW_def COL_def)

lemma matrix_make_press: "matrix_ok s \<Longrightarrow> matrix_make code s = Some (press code s)"
  by (simp add: matrix_ok_def matrix_make_def matrix_is_on_code array_get_def array_set_def
      ROW_in press_def)

lemma matrix_break_release: "matrix_ok s \<Longrightarrow> matrix_break code s = Some (release code s)"
  by (simp add: matrix_ok_def matrix_break_def matrix_is_on_code array_get_def array_set_def
      ROW_in release_def)

lemma matrix_ok_press [simp]: "matrix_ok (press code s) = matrix_ok s"
  by (simp add: matrix_ok_def press_def)

lemma matrix_ok_release [simp]: "matrix_ok (release code s) = matrix_ok s"
  by (simp add: matrix_ok_def release_def)

lemma matrix_ok_updates [simp]:
  "matrix_ok (s\<lparr>is_modified := f\<rparr>) = matrix_ok s"
  "matrix_ok (s\<lparr>state := t\<rparr>) = matrix_ok s"
  "matrix_ok (s\<lparr>calls := l\<rparr>) = matrix_ok s"
  "matrix_ok (clear_keyboard s) = matrix_ok s"
  "matrix_ok (led_set s) = matrix_ok s"
  by (simp_all add: matrix_ok_def clear_keyboard_def led_set_def)

lemma key_on_press:
  assumes "matrix_ok s"
  shows "key_on (matrix (press c s)) d \<longleftrightarrow> d = c \<or> key_on (matrix s) d"
proof (cases "ROW d = ROW c")
  case True
  then show ?thesis
    using assms ROW_in [of c] COL_lt [of c] code_eqI [of d c]
    by (auto simp: press_def key_on_def matrix_ok_def bit_or_iff bit_exp8 unat_COL_eq)
next
  case False
  then show ?thesis
    using assms by (auto simp: press_def key_on_def unat_ROW_eq)
qed

lemma key_on_release:
  assumes "matrix_ok s"
  shows "key_on (matrix (release c s)) d \<longleftrightarrow> d \<noteq> c \<and> key_on (matrix s) d"
proof (cases "ROW d = ROW c")
  case True
  then show ?thesis
    using assms ROW_in [of c] COL_lt [of c] COL_lt [of d] code_eqI [of d c]
    by (auto simp: release_def key_on_def matrix_ok_def bit_and_iff bit_not_iff bit_exp8 unat_COL_eq)
next
  case False
  then show ?thesis
    using assms by (auto simp: release_def key_on_def unat_ROW_eq)
qed

lemma press_fields [simp]:
  "state (press c s) = state s" "calls (press c s) = calls s"
  "is_modified (press c s) \<longleftrightarrow> is_modified s \<or> \<not> key_on (matrix s) c"
  by (simp_all add: press_def)

lemma release_fields [simp]:
  "state (release c s) = state s" "calls (release c s) = calls s"
  "is_modified (release c s) \<longleftrightarrow> is_modified s \<or> key_on (matrix s) c"
  by (simp_all add: release_def)

lemma release_off: "\<not> key_on (matrix t) d \<Longrightarrow> release d t = t"
  by (simp add: release_def)

lemma press_on: "key_on (matrix t) d \<Longrightarrow> press d t = t"
  by (simp add: press_def)

lemma clear_loop_eq:
  "unat i \<le> MATRIX_ROWS \<Longrightarrow> length m = MATRIX_ROWS \<Longrightarrow>
   matrix_clear_loop i m = Some (take (unat i) m @ replicate (MATRIX_ROWS - unat i) 0)"
proof (induction i m rule: matrix_clear_loop.induct)
  case (1 i m)
  show ?case
  proof (cases "unat i < MATRIX_ROWS")
    case True
    then have suc: "unat (i + 1) = Suc (unat i)"
      by (simp add: MATRIX_ROWS_def unat_word_ariths)
    have set: "array_set m i 0 = Some (m[unat i := 0])"
      using True "1.prems" by (simp add: array_set_def)
    have "matrix_clear_loop (i + 1) (m[unat i := 0]) =
          Some (take (unat (i + 1)) (m[unat i := 0]) @ replicate (MATRIX_ROWS - unat (i + 1)) 0)"
      using "1.IH" [OF True set] True "1.prems" suc by simp
    moreover have "take (Suc (unat i)) (m[unat i := 0]) = take (unat i) m @ [0]"
      using True "1.prems" by (simp add: take_Suc_conv_app_nth)
    moreover have "replicate (MATRIX_ROWS - unat i) (0 :: uint8_t) =
        0 # replicate (MATRIX_ROWS - Suc (unat i)) 0"
      using True by (cases "MATRIX_ROWS - unat i") auto
    ultimately show ?thesis
      using True set suc by (subst matrix_clear_loop.simps) simp
  next
    case False
    with "1.prems" show ?thesis
      by (subst matrix_clear_loop.simps) simp
  qed
qed

lemma matrix_clear_wipe: "matrix_ok s \<Longrightarrow> matrix_clear s = Some (wipe s)"
  using clear_loop_eq [of 0 "matrix s"]
  by (simp add: matrix_ok_def matrix_clear_def wipe_def)

lemma wipe_fields [simp]:
  "state (wipe s) = state s" "calls (wipe s) = calls s"
  "is_modified (wipe s) = is_modified s" "matrix (wipe s) = replicate MATRIX_ROWS 0"
  "matrix_ok (wipe s)"
  by (simp_all add: wipe_def matrix_ok_def)

lemma key_on_zero [simp]: "\<not> key_on (replicate MATRIX_ROWS 0) c"
  using ROW_lt [of c] by (simp add: key_on_def MATRIX_ROWS_def)

lemma make_twice: "Option.bind (matrix_make code s) (matrix_make code) = matrix_make code s"
proof (cases "length (matrix s) = MATRIX_ROWS")
  case True
  then have ok: "matrix_ok s" by (simp add: matrix_ok_def)
  have "press code (press code s) = press code s"
    using ok key_on_press [of s code code] by (simp add: press_def [of code "press code s"])
  then show ?thesis
    using ok by (simp add: matrix_make_press)
next
  case False
  show ?thesis
  proof (cases "matrix_make code s")
    case None
    then show ?thesis by simp
  next
    case (Some s')
    then show ?thesis
      by (auto simp: matrix_make_def matrix_is_on_def array_get_def array_set_def test_exp
          split: if_splits bind_splits)
  qed
qed

lemma break_twice: "Option.bind (matrix_break code s) (matrix_break code) = matrix_break code s"
proof (cases "length (matrix s) = MATRIX_ROWS")
  case True
  then have ok: "matrix_ok s" by (simp add: matrix_ok_def)
  have "release code (release code s) = release code s"
    using ok key_on_release [of s code code] by (simp add: release_def [of code "release code s"])
  then show ?thesis
    using ok by (simp add: matrix_break_release)
next
  case False
  show ?thesis
  proof (cases "matrix_break code s")
    case None
    then show ?thesis by simp
  next
    case (Some s')
    then show ?thesis
      by (auto simp: matrix_break_def matrix_is_on_def array_get_def array_set_def test_exp bit_simps
          split: if_splits bind_splits)
  qed
qed

section \<open>Counting keys\<close>

lemma key_count_loop_eq:
  "unat i \<le> MATRIX_ROWS \<Longrightarrow> length m = MATRIX_ROWS \<Longrightarrow>
   matrix_key_count_loop i count m =
     Some (count + of_nat (sum_list (map popcount8 (drop (unat i) m))))"
proof (induction i count m rule: matrix_key_count_loop.induct)
  case (1 i count m)
  show ?case
  proof (cases "unat i < MATRIX_ROWS")
    case True
    then have suc: "unat (i + 1) = Suc (unat i)"
      by (simp add: MATRIX_ROWS_def unat_word_ariths)
    have get: "array_get m i = Some (m ! unat i)"
      using True "1.prems" by (simp add: array_get_def)
    have "matrix_key_count_loop (i + 1) (count + bitpop (m ! unat i)) m =
          Some (count + bitpop (m ! unat i) + of_nat (sum_list (map popcount8 (drop (Suc (unat i)) m))))"
      using "1.IH" [OF True get] True "1.prems" suc by simp
    moreover have "drop (unat i) m = m ! unat i # drop (Suc (unat i)) m"
      using True "1.prems" by (simp add: Cons_nth_drop_Suc)
    ultimately show ?thesis
      using True get by (subst matrix_key_count_loop.simps) (simp add: bitpop_def popcount8_def)
  next
    case False
    with "1.prems" show ?thesis
      by (subst matrix_key_count_loop.simps) simp
  qed
qed

lemma matrix_key_count_eq:
  "length m = MATRIX_ROWS \<Longrightarrow> matrix_key_count m = Some (of_nat (sum_list (map popcount8 m)))"
  using key_count_loop_eq [of 0 m 0] by (simp add: matrix_key_count_def)

lemma length_filter_product:
  "length (filter P (List.product xs ys)) = (\<Sum>x\<leftarrow>xs. length (filter (\<lambda>y. P (x, y)) ys))"
  by (induction xs) (simp_all add: filter_map comp_def)

lemma is_on_nat:
  assumes "length m = MATRIX_ROWS" and "row < MATRIX_ROWS" and "col < 8"
  shows "matrix_is_on m (of_nat row) (of_nat col) = Some (bit (m ! row) col)"
proof -
  have "unat (of_nat row :: uint8_t) = row" "unat (of_nat col :: uint8_t) = col"
    using assms(2,3) by (simp_all add: MATRIX_ROWS_def unat_of_nat)
  then show ?thesis
    using assms by (simp add: matrix_is_on_def array_get_def test_exp)
qed

lemma count_on_eq:
  assumes "length m = MATRIX_ROWS"
  shows "count_on m = sum_list (map popcount8 m)"
proof -
  have "count_on m = (\<Sum>row\<leftarrow>[0..<MATRIX_ROWS].
      length (filter (\<lambda>col. matrix_is_on m (of_nat row) (of_nat col) = Some True) [0..<8]))"
    by (simp add: count_on_def length_filter_product)
  also have "\<dots> = (\<Sum>row\<leftarrow>[0..<MATRIX_ROWS]. popcount8 (m ! row))"
  proof (rule arg_cong [where f = sum_list], rule map_cong [OF refl])
    fix row assume "row \<in> set [0..<MATRIX_ROWS]"
    then have r: "row < MATRIX_ROWS" by simp
    have "filter (\<lambda>col. matrix_is_on m (of_nat row) (of_nat col) = Some True) [0..<8]
        = filter (bit (m ! row)) [0..<8]"
      by (rule filter_cong [OF refl]) (simp add: is_on_nat [OF assms r])
    then show "length (filter (\<lambda>col. matrix_is_on m (of_nat row) (of_nat col) = Some True) [0..<8])
        = popcount8 (m ! row)"
      by (simp add: popcount8_def)
  qed
  also have "\<dots> = sum_list (map popcount8 (map (\<lambda>row. m ! row) [0..<length m]))"
    by (simp add: assms comp_def)
  also have "\<dots> = sum_list (map popcount8 m)"
    by (simp only: map_nth)
  finally show ?thesis .
qed

lemma sum_popcount_le: "sum_list (map popcount8 m) \<le> 8 * length m"
proof (induction m)
  case Nil
  show ?case by simp
next
  case (Cons r m)
  have "popcount8 r \<le> 8"
    using length_filter_le [of "bit r" "[0..<8]"] by (simp add: popcount8_def)
  with Cons show ?case by simp
qed

section \<open>One tick\<close>

lemma pseudo_break_release: "matrix_ok s \<Longrightarrow> pseudo_break s = Some (release PAUSE s)"
  by (simp add: pseudo_break_def matrix_is_on_code matrix_break_release matrix_ok_def [symmetric])
     (simp add: release_def)

lemma matrix_scan_eq:
  "matrix_ok s \<Longrightarrow>
   matrix_scan (code, ps2_error) s =
     (if ps2_error = 0 then scan_switch code (release PAUSE (s\<lparr>is_modified := False\<rparr>))
      else Some (release PAUSE (s\<lparr>is_modified := False\<rparr>)))"
  by (simp add: matrix_scan_def pseudo_break_release)

lemma scan_switch_ok:
  assumes "matrix_ok s"
  shows "\<exists>s'. scan_switch code s = Some s' \<and> matrix_ok s'"
  using assms
  by (cases "state s")
     (simp_all add: scan_switch_def matrix_make_press matrix_break_release matrix_clear_wipe)

lemma matrix_scan_ok:
  assumes "matrix_ok s"
  shows "\<exists>s'. matrix_scan recv s = Some s' \<and> matrix_ok s'"
proof (cases recv)
  case (Pair code err)
  show ?thesis
    using assms scan_switch_ok [of "release PAUSE (s\<lparr>is_modified := False\<rparr>)" code]
    by (simp add: Pair matrix_scan_eq)
qed

section \<open>What a run keeps\<close>

lemma ext_nonzero: "(c :: uint8_t) OR 0x80 \<noteq> 0"
  by (simp add: or_eq_0_iff)

lemma cell0_off_press: "cell0_off s \<Longrightarrow> c \<noteq> 0 \<Longrightarrow> cell0_off (press c s)"
  by (auto simp: cell0_off_def key_on_press)

lemma cell0_off_release: "cell0_off s \<Longrightarrow> cell0_off (release c s)"
  by (simp add: cell0_off_def key_on_release)

lemma cell0_off_wipe: "cell0_off (wipe s)"
  by (simp add: cell0_off_def)

lemma cell0_off_updates [simp]:
  "cell0_off (s\<lparr>is_modified := f\<rparr>) = cell0_off s"
  "cell0_off (s\<lparr>state := t\<rparr>) = cell0_off s"
  "cell0_off (clear_keyboard s) = cell0_off s"
  "cell0_off (led_set s) = cell0_off s"
  by (simp_all add: cell0_off_def clear_keyboard_def led_set_def)

lemma cell0_off_switch:
  assumes "cell0_off s" and "scan_switch code s = Some s'"
  shows "cell0_off s'"
proof -
  have ok: "matrix_ok s" using assms(1) by (simp add: cell0_off_def)
  have nz: "F7 \<noteq> 0" "PRINT_SCREEN \<noteq> 0" "PAUSE \<noteq> 0"
    by (simp_all add: F7_def PRINT_SCREEN_def PAUSE_def)
  show ?thesis
    using assms ok nz
    by (cases "state s")
       (auto simp: scan_switch_def matrix_make_press matrix_break_release matrix_clear_wipe
          cell0_off_press cell0_off_release cell0_off_wipe ext_nonzero split: if_splits)
qed

lemma cell0_off_scan:
  assumes "cell0_off s" and "matrix_scan recv s = Some s'"
  shows "cell0_off s'"
proof (cases recv)
  case (Pair code err)
  have ok: "matrix_ok s" using assms(1) by (simp add: cell0_off_def)
  have p: "cell0_off (release PAUSE (s\<lparr>is_modified := False\<rparr>))"
    using assms(1) by (simp add: cell0_off_release)
  show ?thesis
    using assms(2) ok p cell0_off_switch [of "release PAUSE (s\<lparr>is_modified := False\<rparr>)" code s']
    by (auto simp: Pair matrix_scan_eq split: if_splits)
qed

lemma cell0_off_clear:
  assumes "cell0_off s" and "matrix_clear s = Some s'"
  shows "cell0_off s'"
  using assms by (auto simp: cell0_off_def matrix_clear_wipe)

lemma cell0_off_init: "cell0_off matrix_init"
  by (simp add: cell0_off_def matrix_ok_def matrix_init_def)

lemma cell0_off_run: "cell0_off s \<Longrightarrow> run es s = Some s' \<Longrightarrow> cell0_off s'"
proof (induction es s rule: run.induct)
  case (1 s)
  then show ?case by simp
next
  case (2 recv rest s)
  then show ?case
    by (auto simp: cell0_off_scan split: bind_splits)
next
  case (3 rest s)
  then show ?case
    by (auto simp: cell0_off_clear split: bind_splits)
qed

lemma popcount8_bit0: "\<not> bit r 0 \<Longrightarrow> popcount8 r < 8"
  using length_filter_less [of 0 "[0..<8]" "bit r"] by (simp add: popcount8_def)

lemma count_on_below:
  assumes "cell0_off s"
  shows "count_on (matrix s) < 256"
proof -
  have len: "length (matrix s) = MATRIX_ROWS" and off: "\<not> key_on (matrix s) 0"
    using assms by (simp_all add: cell0_off_def matrix_ok_def)
  obtain r rest where m: "matrix s = r # rest"
    using len by (cases "matrix s") (simp_all add: MATRIX_ROWS_def)
  have "\<not> bit r 0"
    using off by (simp add: key_on_def ROW_def COL_def m)
  then have "popcount8 r < 8" by (rule popcount8_bit0)
  moreover have "sum_list (map popcount8 rest) \<le> 8 * length rest"
    by (rule sum_popcount_le)
  moreover have "length rest = 31"
    using len by (simp add: m MATRIX_ROWS_def)
  ultimately show ?thesis
    using len by (simp add: count_on_eq m)
qed

section \<open>The modified flag\<close>

text \<open>
  In a tick that does not call \<^verbatim>\<open>clear_keyboard\<close>, and so does not clear the
  matrix, the flag is true at the end exactly when the pseudo break code or the
  interpretation of the byte changed the matrix.
\<close>

lemma press_same: "matrix_ok t \<Longrightarrow> matrix (press c t) = matrix t \<longleftrightarrow> key_on (matrix t) c"
proof
  assume "matrix_ok t" and "matrix (press c t) = matrix t"
  then show "key_on (matrix t) c"
    using key_on_press [of t c c] by simp
next
  assume "key_on (matrix t) c"
  then show "matrix (press c t) = matrix t"
    by (simp add: press_on)
qed

lemma release_same: "matrix_ok t \<Longrightarrow> matrix (release c t) = matrix t \<longleftrightarrow> \<not> key_on (matrix t) c"
proof
  assume "matrix_ok t" and "matrix (release c t) = matrix t"
  then show "\<not> key_on (matrix t) c"
    using key_on_release [of t c c] by auto
next
  assume "\<not> key_on (matrix t) c"
  then show "matrix (release c t) = matrix t"
    by (simp add: release_off)
qed

lemma switch_flag:
  assumes "matrix_ok p" and "scan_switch code p = Some s'" and "calls s' \<noteq> calls p @ [ClearKeyboard]"
  shows "is_modified s' \<longleftrightarrow> is_modified p \<or> matrix s' \<noteq> matrix p"
  using assms
  by (cases "state p")
     (auto simp: scan_switch_def matrix_make_press matrix_break_release matrix_clear_wipe
        press_same release_same clear_keyboard_def led_set_def split: if_splits)

lemma modified_flag_without_clear:
  assumes "length (matrix s) = MATRIX_ROWS" and "matrix_scan (code, err) s = Some s'"
    and "calls s' \<noteq> calls s @ [ClearKeyboard]"
  shows "\<exists>p. pseudo_break (s\<lparr>is_modified := False\<rparr>) = Some p
           \<and> (is_modified s' \<longleftrightarrow> matrix p \<noteq> matrix s \<or> matrix s' \<noteq> matrix p)"
proof -
  have ok: "matrix_ok s" using assms(1) by (simp add: matrix_ok_def)
  define p where "p = release PAUSE (s\<lparr>is_modified := False\<rparr>)"
  have pb: "pseudo_break (s\<lparr>is_modified := False\<rparr>) = Some p"
    using ok by (simp add: pseudo_break_release p_def)
  have okp: "matrix_ok p" and cp: "calls p = calls s"
    using ok by (simp_all add: p_def)
  have mp: "is_modified p \<longleftrightarrow> matrix p \<noteq> matrix s"
    using ok release_same [of "s\<lparr>is_modified := False\<rparr>" PAUSE] by (simp add: p_def)
  show ?thesis
  proof (cases "err = 0")
    case True
    then have "scan_switch code p = Some s'"
      using assms(2) ok by (simp add: matrix_scan_eq p_def)
    then have "is_modified s' \<longleftrightarrow> is_modified p \<or> matrix s' \<noteq> matrix p"
      using switch_flag [OF okp] assms(3) cp by simp
    then show ?thesis using pb mp by blast
  next
    case False
    then have "s' = p"
      using assms(2) ok by (simp add: matrix_scan_eq p_def)
    then show ?thesis using pb mp by blast
  qed
qed

section \<open>Properties of the decoder and the matrix\<close>

text \<open>
  Claim C9. For every 8-bit code the row index \<open>code >> 3\<close> is at most 31. On a matrix
  of \<open>MATRIX_ROWS\<close> = 32 rows, \<^verbatim>\<open>matrix_make\<close>, \<^verbatim>\<open>matrix_break\<close> and
  \<^verbatim>\<open>matrix_clear\<close> therefore never leave the array (they return a state, and the
  matrix keeps its 32 rows), and neither does a tick of \<^verbatim>\<open>matrix_scan\<close>, whatever
  the transport hands over.
\<close>

theorem row_index_in_bounds:
  "unat (ROW code) \<le> 31 \<and>
   (length (matrix s) = MATRIX_ROWS \<longrightarrow>
      (\<exists>s'. matrix_make code s = Some s' \<and> length (matrix s') = MATRIX_ROWS) \<and>
      (\<exists>s'. matrix_break code s = Some s' \<and> length (matrix s') = MATRIX_ROWS) \<and>
      (\<exists>s'. matrix_clear s = Some s' \<and> length (matrix s') = MATRIX_ROWS) \<and>
      (\<forall>recv. \<exists>s'. matrix_scan recv s = Some s' \<and> length (matrix s') = MATRIX_ROWS))"
proof -
  have "unat (ROW code) \<le> 31"
    using ROW_lt [of code] by simp
  moreover have "\<exists>s'. matrix_make code s = Some s' \<and> length (matrix s') = MATRIX_ROWS"
    if "length (matrix s) = MATRIX_ROWS"
    using that matrix_make_press [of s code] matrix_ok_press [of code s]
    by (simp add: matrix_ok_def)
  moreover have "\<exists>s'. matrix_break code s = Some s' \<and> length (matrix s') = MATRIX_ROWS"
    if "length (matrix s) = MATRIX_ROWS"
    using that matrix_break_release [of s code] matrix_ok_release [of code s]
    by (simp add: matrix_ok_def)
  moreover have "\<exists>s'. matrix_clear s = Some s' \<and> length (matrix s') = MATRIX_ROWS"
    if "length (matrix s) = MATRIX_ROWS"
    using that matrix_clear_wipe [of s] by (simp add: matrix_ok_def)
  moreover have "\<exists>s'. matrix_scan recv s = Some s' \<and> length (matrix s') = MATRIX_ROWS"
    if "length (matrix s) = MATRIX_ROWS" for recv
    using that matrix_scan_ok [of s recv] by (simp add: matrix_ok_def)
  ultimately show ?thesis by blast
qed

theorem row_index_in_bounds_witness:
  "unat (ROW 0xFF) \<le> 31 \<and> length (matrix matrix_init) = MATRIX_ROWS \<and>
   (\<exists>s'. matrix_make 0xFF matrix_init = Some s' \<and> length (matrix s') = MATRIX_ROWS) \<and>
   (\<exists>s'. matrix_break 0xFF matrix_init = Some s' \<and> length (matrix s') = MATRIX_ROWS) \<and>
   (\<exists>s'. matrix_clear matrix_init = Some s' \<and> length (matrix s') = MATRIX_ROWS) \<and>
   (\<forall>recv. \<exists>s'. matrix_scan recv matrix_init = Some s' \<and> length (matrix s') = MATRIX_ROWS)"
proof -
  have len: "length (matrix matrix_init) = MATRIX_ROWS"
    by (simp add: matrix_init_def)
  show ?thesis
    using len row_index_in_bounds [of "0xFF" matrix_init] by simp
qed

text \<open>
  Claim C1, as the program has it. Let \<open>b \<ge> 0x80\<close> arrive with no transport error, on
  any matrix. In state \<open>INIT\<close> when \<open>b\<close> is none of \<open>0xE0\<close>, \<open>0xF0\<close>, \<open>0xE1\<close> (the
  prefixes), \<open>0x83\<close>, \<open>0x84\<close> (F7 and the alternate PrintScreen) and \<open>0xAA\<close>, \<open>0xFC\<close>
  (the self-test notifications), in state \<open>F0\<close> when \<open>b\<close> is none of \<open>0x83\<close>, \<open>0x84\<close>
  and \<open>0xF0\<close>, and in state \<open>E0_F0\<close> for every such \<open>b\<close>: the tick leaves every row
  of the matrix zero, calls \<^verbatim>\<open>clear_keyboard\<close> exactly once, and ends in \<open>INIT\<close>.
  In state \<open>F0\<close> the byte \<open>0xF0\<close> clears the matrix and calls \<^verbatim>\<open>clear_keyboard\<close>
  once as well, but the decoder stays in \<open>F0\<close>.
\<close>

theorem violation_clears:
  assumes "length (matrix s) = MATRIX_ROWS" and "0x80 \<le> b"
  shows "(state s = INIT \<and> b \<notin> {0xE0, 0xF0, 0xE1, 0x83, 0x84, 0xAA, 0xFC}
            \<or> state s = F0 \<and> b \<notin> {0x83, 0x84, 0xF0}
            \<or> state s = E0_F0 \<longrightarrow>
          (\<exists>s'. matrix_scan (b, 0) s = Some s' \<and> matrix s' = replicate MATRIX_ROWS 0
              \<and> calls s' = calls s @ [ClearKeyboard] \<and> state s' = INIT))
       \<and> (state s = F0 \<and> b = 0xF0 \<longrightarrow>
          (\<exists>s'. matrix_scan (b, 0) s = Some s' \<and> matrix s' = replicate MATRIX_ROWS 0
              \<and> calls s' = calls s @ [ClearKeyboard] \<and> state s' = F0))"
proof -
  have ok: "matrix_ok s" using assms(1) by (simp add: matrix_ok_def)
  note hb = high_byte [OF assms(2)]
  show ?thesis
    using ok hb
    by (auto simp: matrix_scan_eq scan_switch_def matrix_clear_wipe clear_keyboard_def)
qed

theorem violation_clears_witness:
  "length ((replicate 32 0)[3 := 0x10 :: uint8_t]) = MATRIX_ROWS \<and> (0x80 :: uint8_t) \<le> 0xFF \<and>
   (\<exists>s'. matrix_scan (0xFF, 0)
            \<lparr>matrix = (replicate 32 0)[3 := 0x10], is_modified = False, state = INIT, calls = []\<rparr>
          = Some s'
        \<and> matrix s' = replicate MATRIX_ROWS 0 \<and> calls s' = [ClearKeyboard] \<and> state s' = INIT) \<and>
   (\<exists>s'. matrix_scan (0xF0, 0)
            \<lparr>matrix = (replicate 32 0)[3 := 0x10], is_modified = False, state = F0, calls = []\<rparr>
          = Some s'
        \<and> matrix s' = replicate MATRIX_ROWS 0 \<and> calls s' = [ClearKeyboard] \<and> state s' = F0)"
  using
    violation_clears [of
      "\<lparr>matrix = (replicate 32 0)[3 := 0x10], is_modified = False, state = INIT, calls = []\<rparr>" "0xFF"]
    violation_clears [of
      "\<lparr>matrix = (replicate 32 0)[3 := 0x10], is_modified = False, state = F0, calls = []\<rparr>" "0xF0"]
  by (simp add: MATRIX_ROWS_def)

text \<open>
  Claim C1 as it is written fails on the prefix byte \<open>0xE0\<close>: delivered in state
  \<open>INIT\<close> to a matrix in which the key \<open>0x1C\<close> is down, it leaves the matrix as it
  was, calls nothing, and moves the decoder to state \<open>E0\<close>.
\<close>

theorem violation_clears_counterexample:
  "(0x80 :: uint8_t) \<le> 0xE0 \<and>
   matrix_scan (0xE0, 0)
       \<lparr>matrix = (replicate 32 0)[3 := 0x10], is_modified = False, state = INIT, calls = []\<rparr>
     = Some \<lparr>matrix = (replicate 32 0)[3 := 0x10], is_modified = False, state = E0, calls = []\<rparr>
   \<and> matrix_is_on ((replicate 32 0)[3 := 0x10]) (ROW 0x1C) (COL 0x1C) = Some True"
  by code_simp

text \<open>
  Claim C8. When the transport has raised its error flag (\<open>ps2_error \<noteq> 0\<close>) the byte
  is not interpreted, whatever the byte and the decoder state: the tick ends in the
  state it started in, calls no collaborator, and its whole effect is that of the
  pseudo break code, which runs before the byte is asked for. Every key other than
  Pause reads as before.
\<close>

theorem transport_error_discards:
  assumes "length (matrix s) = MATRIX_ROWS" and "ps2_error \<noteq> 0"
  shows "\<exists>s'. matrix_scan (code, ps2_error) s = Some s' \<and> state s' = state s
           \<and> calls s' = calls s
           \<and> pseudo_break (s\<lparr>is_modified := False\<rparr>) = Some s'
           \<and> (\<forall>c. c \<noteq> PAUSE \<longrightarrow>
                 matrix_is_on (matrix s') (ROW c) (COL c) = matrix_is_on (matrix s) (ROW c) (COL c))"
proof -
  have ok: "matrix_ok s" using assms(1) by (simp add: matrix_ok_def)
  then have ok': "matrix_ok (s\<lparr>is_modified := False\<rparr>)" by simp
  have len: "length (matrix (release PAUSE (s\<lparr>is_modified := False\<rparr>))) = MATRIX_ROWS"
    using ok' matrix_ok_release [of PAUSE "s\<lparr>is_modified := False\<rparr>"] by (simp add: matrix_ok_def)
  show ?thesis
    using assms ok' len
    by (simp add: matrix_scan_eq ok pseudo_break_release matrix_is_on_code key_on_release)
qed

theorem transport_error_discards_witness:
  "length ((replicate 32 0)[3 := 0x10 :: uint8_t]) = MATRIX_ROWS \<and> (1 :: uint8_t) \<noteq> 0 \<and>
   (\<exists>s'. matrix_scan (0x00, 1)
            \<lparr>matrix = (replicate 32 0)[3 := 0x10], is_modified = False, state = E0_F0, calls = []\<rparr>
          = Some s'
        \<and> state s' = E0_F0 \<and> calls s' = []
        \<and> matrix_is_on (matrix s') (ROW 0x1C) (COL 0x1C) = Some True)"
proof -
  have on: "matrix_is_on ((replicate 32 0)[3 := 0x10]) (ROW 0x1C) (COL 0x1C) = Some True"
    by code_simp
  have ne: "(0x1C :: uint8_t) \<noteq> PAUSE"
    by (simp add: PAUSE_def)
  show ?thesis
    using on ne
      transport_error_discards [of
        "\<lparr>matrix = (replicate 32 0)[3 := 0x10], is_modified = False, state = E0_F0, calls = []\<rparr>"
        1 "0x00"]
    by (auto simp: MATRIX_ROWS_def)
qed

text \<open>
  Claim C4. Let \<open>c\<close> be a code in \<open>[0x00, 0x7F]\<close> other than the overrun sentinel
  \<open>0x00\<close> (the only byte below \<open>0x80\<close> that state \<open>INIT\<close> reserves). Delivered to
  the idle decoder, \<open>c\<close> makes \<^verbatim>\<open>matrix_is_on(c>>3, c&7)\<close> true; delivering \<open>0xF0\<close>
  and then \<open>c\<close> makes it false again. The row \<open>c >> 3\<close> and the column \<open>c & 7\<close> are
  written out in the statement, not taken from the macros of the program.
\<close>

theorem plain_make_break:
  assumes "length (matrix s) = MATRIX_ROWS" and "state s = INIT"
    and "c \<noteq> 0x00" and "c < 0x80"
  shows "\<exists>s1. deliver [c] s = Some s1
           \<and> matrix_is_on (matrix s1) (drop_bit 3 c) (c AND 0x07) = Some True
           \<and> (\<exists>s2. deliver [0xF0, c] s1 = Some s2
                 \<and> matrix_is_on (matrix s2) (drop_bit 3 c) (c AND 0x07) = Some False)"
proof -
  have ok: "matrix_ok s" using assms(1) by (simp add: matrix_ok_def)
  have lt: "c < 0x80" using assms(4) .
  note lb = low_byte [OF lt]
  define s1 where "s1 = (press c (release PAUSE (s\<lparr>is_modified := False\<rparr>)))\<lparr>state := INIT\<rparr>"
  have d1: "deliver [c] s = Some s1"
    using ok lt lb assms(2,3)
    by (simp add: deliver_def matrix_scan_eq scan_switch_def matrix_make_press s1_def)
  have ok1: "matrix_ok s1" and st1: "state s1 = INIT"
    using ok by (simp_all add: s1_def)
  have on1: "key_on (matrix s1) c"
    using ok by (simp add: s1_def key_on_press)
  define s2 where "s2 = (release c (release PAUSE
      ((release PAUSE (s1\<lparr>is_modified := False\<rparr>))\<lparr>state := F0, is_modified := False\<rparr>)))\<lparr>state := INIT\<rparr>"
  have d2: "deliver [0xF0, c] s1 = Some s2"
    using ok1 st1 lt lb
    by (simp add: deliver_def matrix_scan_eq scan_switch_def matrix_break_release s2_def)
  have ok2: "matrix_ok s2"
    using ok1 by (simp add: s2_def)
  have off2: "\<not> key_on (matrix s2) c"
    using ok1 by (simp add: s2_def key_on_release)
  show ?thesis
    using d1 d2 on1 off2 ok1 ok2
    by (simp add: matrix_is_on_literal matrix_ok_def)
qed

theorem plain_make_break_witness:
  "length (matrix matrix_init) = MATRIX_ROWS \<and> state matrix_init = INIT
   \<and> (0x1C :: uint8_t) \<noteq> 0x00 \<and> (0x1C :: uint8_t) < 0x80
   \<and> (\<exists>s1. deliver [0x1C] matrix_init = Some s1
           \<and> matrix_is_on (matrix s1) 3 4 = Some True
           \<and> (\<exists>s2. deliver [0xF0, 0x1C] s1 = Some s2
                 \<and> matrix_is_on (matrix s2) 3 4 = Some False))"
proof -
  have init: "length (matrix matrix_init) = MATRIX_ROWS" "state matrix_init = INIT"
    by (simp_all add: matrix_init_def)
  have cell: "drop_bit 3 (0x1C :: uint8_t) = 3" "(0x1C :: uint8_t) AND 0x07 = 4"
    by simp_all
  show ?thesis
    using init plain_make_break [of matrix_init "0x1C"] by (simp add: cell)
qed

text \<open>
  Claim C5. Let \<open>c < 0x80\<close> be none of \<open>0x12\<close>, \<open>0x59\<close>, \<open>0x7E\<close>. Delivering \<open>0xE0\<close>
  and then \<open>c\<close> to the idle decoder makes \<^verbatim>\<open>matrix_is_on\<close> true at the coordinate
  of \<open>c | 0x80\<close>, and delivering \<open>0xE0 0xF0 c\<close> makes it false again. The extended
  coordinate lies in rows 16 to 31, the plain coordinate of \<open>c\<close> in rows 0 to 15.
  Rows and columns are written out in the statement as \<open>x >> 3\<close> and \<open>x & 7\<close>.
\<close>

theorem extended_make_break:
  assumes "length (matrix s) = MATRIX_ROWS" and "state s = INIT"
    and "c < 0x80" and "c \<notin> {0x12, 0x59, 0x7E}"
  shows "\<exists>s1. deliver [0xE0, c] s = Some s1
           \<and> matrix_is_on (matrix s1) (drop_bit 3 (c OR 0x80)) ((c OR 0x80) AND 0x07) = Some True
           \<and> (\<exists>s2. deliver [0xE0, 0xF0, c] s1 = Some s2
                 \<and> matrix_is_on (matrix s2) (drop_bit 3 (c OR 0x80)) ((c OR 0x80) AND 0x07) = Some False)
           \<and> unat (drop_bit 3 c) < 16 \<and> 16 \<le> unat (drop_bit 3 (c OR 0x80))"
proof -
  have ok: "matrix_ok s" using assms(1) by (simp add: matrix_ok_def)
  note lb = low_byte [OF assms(3)]
  have np: "c OR 0x80 \<noteq> PAUSE"
    using assms(3,4) by (simp add: ext_not_pause)
  have ne: "c \<noteq> 0x12" "c \<noteq> 0x59" "c \<noteq> 0x7E"
    using assms(4) by simp_all
  define s1 where "s1 = (press (c OR 0x80) (release PAUSE
      ((release PAUSE (s\<lparr>is_modified := False\<rparr>))\<lparr>state := E0, is_modified := False\<rparr>)))\<lparr>state := INIT\<rparr>"
  have d1: "deliver [0xE0, c] s = Some s1"
    using ok assms(2,3) lb ne
    by (simp add: deliver_def matrix_scan_eq scan_switch_def matrix_make_press s1_def)
  have ok1: "matrix_ok s1" and st1: "state s1 = INIT"
    using ok by (simp_all add: s1_def)
  have on1: "key_on (matrix s1) (c OR 0x80)"
    using ok by (simp add: s1_def key_on_press)
  define s2 where "s2 = (release (c OR 0x80) (release PAUSE
      ((release PAUSE ((release PAUSE (s1\<lparr>is_modified := False\<rparr>))\<lparr>state := E0, is_modified := False\<rparr>))
         \<lparr>state := E0_F0, is_modified := False\<rparr>)))\<lparr>state := INIT\<rparr>"
  have d2: "deliver [0xE0, 0xF0, c] s1 = Some s2"
    using ok1 st1 assms(3) lb ne
    by (simp add: deliver_def matrix_scan_eq scan_switch_def matrix_break_release s2_def)
  have ok2: "matrix_ok s2"
    using ok1 by (simp add: s2_def)
  have off2: "\<not> key_on (matrix s2) (c OR 0x80)"
    using ok1 by (simp add: s2_def key_on_release)
  have on: "matrix_is_on (matrix s1) (drop_bit 3 (c OR 0x80)) ((c OR 0x80) AND 0x07) = Some True"
    using matrix_is_on_literal [of "matrix s1" "c OR 0x80"] ok1 on1 by (simp add: matrix_ok_def)
  have off: "matrix_is_on (matrix s2) (drop_bit 3 (c OR 0x80)) ((c OR 0x80) AND 0x07) = Some False"
    using matrix_is_on_literal [of "matrix s2" "c OR 0x80"] ok2 off2 by (simp add: matrix_ok_def)
  have rows: "unat (drop_bit 3 c) < 16" "16 \<le> unat (drop_bit 3 (c OR 0x80))"
    using ROW_low [OF assms(3)] ROW_high [of c] by (simp_all only: ROW_def)
  show ?thesis
    using d1 d2 on off rows by blast
qed

theorem extended_make_break_witness:
  "length (matrix matrix_init) = MATRIX_ROWS \<and> state matrix_init = INIT
   \<and> (0x75 :: uint8_t) < 0x80
   \<and> (\<exists>s1. deliver [0xE0, 0x75] matrix_init = Some s1
           \<and> matrix_is_on (matrix s1) 30 5 = Some True
           \<and> (\<exists>s2. deliver [0xE0, 0xF0, 0x75] s1 = Some s2
                 \<and> matrix_is_on (matrix s2) 30 5 = Some False)
           \<and> unat (drop_bit 3 (0x75 :: uint8_t)) < 16
           \<and> 16 \<le> unat (drop_bit 3 ((0x75 :: uint8_t) OR 0x80)))"
proof -
  have init: "length (matrix matrix_init) = MATRIX_ROWS" "state matrix_init = INIT"
    by (simp_all add: matrix_init_def)
  have c: "(0x75 :: uint8_t) < 0x80" "(0x75 :: uint8_t) \<notin> {0x12, 0x59, 0x7E}"
    by simp_all
  have cell: "drop_bit 3 ((0x75 :: uint8_t) OR 0x80) = 30" "((0x75 :: uint8_t) OR 0x80) AND 0x07 = 5"
    by simp_all
  show ?thesis
    using init c(1) extended_make_break [OF init c] by (simp add: cell)
qed



text \<open>
  Claim C10. In state \<open>E0_F0\<close> the byte \<open>0x7E\<close> is an ordinary extended break: the
  switch performs \<^verbatim>\<open>matrix_break\<close> at \<open>0x7E | 0x80 = 0xFE\<close>, which is the
  coordinate of Pause, and returns to \<open>INIT\<close>, so Pause reads released afterwards
  whether or not it was pressed. Delivered to the idle decoder, the three bytes
  \<open>E0 F0 7E\<close> end in \<open>INIT\<close> with Pause released and no collaborator called, while
  the two bytes \<open>E0 7E\<close> enter the chain of the control-modified Pause.
\<close>

theorem extended_break_7E_is_pause_break:
  assumes "length (matrix s) = MATRIX_ROWS"
  shows "(0x7E :: uint8_t) OR 0x80 = PAUSE
       \<and> (state s = E0_F0 \<longrightarrow>
            (\<exists>s'. scan_switch 0x7E s = Some s' \<and> matrix_break PAUSE s = Some (s'\<lparr>state := E0_F0\<rparr>)
                \<and> state s' = INIT
                \<and> matrix_is_on (matrix s') (ROW PAUSE) (COL PAUSE) = Some False))
       \<and> (state s = INIT \<longrightarrow>
            (\<exists>s'. deliver [0xE0, 0xF0, 0x7E] s = Some s' \<and> state s' = INIT \<and> calls s' = calls s
                \<and> matrix_is_on (matrix s') (ROW PAUSE) (COL PAUSE) = Some False)
          \<and> (\<exists>s'. deliver [0xE0, 0x7E] s = Some s' \<and> state s' = E0_7E))"
proof -
  have ok: "matrix_ok s" using assms by (simp add: matrix_ok_def)
  have a: "\<exists>s'. scan_switch 0x7E s = Some s' \<and> matrix_break PAUSE s = Some (s'\<lparr>state := E0_F0\<rparr>)
                \<and> state s' = INIT
                \<and> matrix_is_on (matrix s') (ROW PAUSE) (COL PAUSE) = Some False"
    if st: "state s = E0_F0"
  proof -
    have "(release PAUSE s)\<lparr>state := E0_F0\<rparr> = release PAUSE s"
      using st by (simp add: release_def)
    moreover have "length (matrix (release PAUSE s)) = MATRIX_ROWS"
      using ok matrix_ok_release [of PAUSE s] by (simp add: matrix_ok_def)
    ultimately show ?thesis
      using ok st
      by (simp add: scan_switch_def matrix_break_release PAUSE_def [symmetric] matrix_is_on_code key_on_release)
  qed
  have b: "\<exists>s'. deliver [0xE0, 0xF0, 0x7E] s = Some s' \<and> state s' = INIT \<and> calls s' = calls s
                \<and> matrix_is_on (matrix s') (ROW PAUSE) (COL PAUSE) = Some False"
    if st: "state s = INIT"
  proof -
    define s3 where "s3 = (release PAUSE (release PAUSE
      ((release PAUSE ((release PAUSE (s\<lparr>is_modified := False\<rparr>))\<lparr>state := E0, is_modified := False\<rparr>))
         \<lparr>state := E0_F0, is_modified := False\<rparr>)))\<lparr>state := INIT\<rparr>"
    have d: "deliver [0xE0, 0xF0, 0x7E] s = Some s3"
      using ok st
      by (simp add: deliver_def matrix_scan_eq scan_switch_def matrix_break_release PAUSE_def [symmetric] s3_def)
    have "matrix_ok s3" "state s3 = INIT" "calls s3 = calls s" "\<not> key_on (matrix s3) PAUSE"
      using ok by (simp_all add: s3_def key_on_release)
    then show ?thesis
      using d by (simp add: matrix_is_on_code matrix_ok_def)
  qed
  have c: "\<exists>s'. deliver [0xE0, 0x7E] s = Some s' \<and> state s' = E0_7E"
    if st: "state s = INIT"
    using ok st by (simp add: deliver_def matrix_scan_eq scan_switch_def)
  show ?thesis
    using a b c pause_codes by blast
qed

theorem extended_break_7E_is_pause_break_witness:
  "length ((replicate 32 0)[31 := 0x40 :: uint8_t]) = MATRIX_ROWS
   \<and> matrix_is_on ((replicate 32 0)[31 := 0x40]) (ROW PAUSE) (COL PAUSE) = Some True
   \<and> (\<exists>s'. scan_switch 0x7E
              \<lparr>matrix = (replicate 32 0)[31 := 0x40], is_modified = False, state = E0_F0, calls = []\<rparr>
            = Some s'
          \<and> state s' = INIT
          \<and> matrix_is_on (matrix s') (ROW PAUSE) (COL PAUSE) = Some False)
   \<and> (\<exists>s'. deliver [0xE0, 0xF0, 0x7E]
              \<lparr>matrix = (replicate 32 0)[31 := 0x40], is_modified = False, state = INIT, calls = []\<rparr>
            = Some s'
          \<and> state s' = INIT \<and> calls s' = []
          \<and> matrix_is_on (matrix s') (ROW PAUSE) (COL PAUSE) = Some False)
   \<and> (\<exists>s'. deliver [0xE0, 0x7E]
              \<lparr>matrix = (replicate 32 0)[31 := 0x40], is_modified = False, state = INIT, calls = []\<rparr>
            = Some s'
          \<and> state s' = E0_7E)"
proof -
  have len: "length ((replicate 32 0)[31 := 0x40 :: uint8_t]) = MATRIX_ROWS"
    by (simp add: MATRIX_ROWS_def)
  have on: "matrix_is_on ((replicate 32 0)[31 := 0x40]) (ROW PAUSE) (COL PAUSE) = Some True"
    by code_simp
  show ?thesis
    using len on
      extended_break_7E_is_pause_break [of
        "\<lparr>matrix = (replicate 32 0)[31 := 0x40], is_modified = False, state = E0_F0, calls = []\<rparr>"]
      extended_break_7E_is_pause_break [of
        "\<lparr>matrix = (replicate 32 0)[31 := 0x40], is_modified = False, state = INIT, calls = []\<rparr>"]
    by auto
qed

text \<open>
  Claim C6. \<^verbatim>\<open>matrix_make\<close> and \<^verbatim>\<open>matrix_break\<close> are idempotent: for every code
  and every state, applying either of them twice gives what applying it once gives.
  On the wire: a plain make byte \<open>c\<close> (\<open>0 < c < 0x80\<close>) delivered twice to the idle
  decoder, with no break in between, leaves the matrix that delivering it once
  leaves.
\<close>

theorem make_break_idempotent:
  "Option.bind (matrix_make code s) (matrix_make code) = matrix_make code s
   \<and> Option.bind (matrix_break code s) (matrix_break code) = matrix_break code s
   \<and> (length (matrix s) = MATRIX_ROWS \<and> state s = INIT \<and> c \<noteq> 0x00 \<and> c < 0x80 \<longrightarrow>
        (\<exists>s1 s2. deliver [c] s = Some s1 \<and> deliver [c, c] s = Some s2 \<and> matrix s2 = matrix s1))"
proof -
  have "\<exists>s1 s2. deliver [c] s = Some s1 \<and> deliver [c, c] s = Some s2 \<and> matrix s2 = matrix s1"
    if len: "length (matrix s) = MATRIX_ROWS" and st: "state s = INIT" and nz: "c \<noteq> 0x00" and lt: "c < 0x80"
  proof -
    have ok: "matrix_ok s" using len by (simp add: matrix_ok_def)
    note lb = low_byte [OF lt]
    define s1 where "s1 = (press c (release PAUSE (s\<lparr>is_modified := False\<rparr>)))\<lparr>state := INIT\<rparr>"
    have m1: "matrix_scan (c, 0) s = Some s1"
      using ok lt lb st nz
      by (simp add: matrix_scan_eq scan_switch_def matrix_make_press s1_def)
    have ok1: "matrix_ok s1" and st1: "state s1 = INIT"
      using ok by (simp_all add: s1_def)
    have on1: "key_on (matrix s1) c" and off1: "\<not> key_on (matrix s1) PAUSE"
      using ok lb by (auto simp: s1_def key_on_press key_on_release)
    have "release PAUSE (s1\<lparr>is_modified := False\<rparr>) = s1\<lparr>is_modified := False\<rparr>"
      using off1 by (simp add: release_off)
    moreover have "press c (s1\<lparr>is_modified := False\<rparr>) = s1\<lparr>is_modified := False\<rparr>"
      using on1 by (simp add: press_on)
    ultimately have m2: "matrix_scan (c, 0) s1 = Some (s1\<lparr>is_modified := False, state := INIT\<rparr>)"
      using ok1 lt lb st1 nz
      by (simp add: matrix_scan_eq scan_switch_def matrix_make_press)
    have "deliver [c] s = Some s1"
      by (simp add: deliver_def m1)
    moreover have "deliver [c, c] s = Some (s1\<lparr>is_modified := False, state := INIT\<rparr>)"
      by (simp add: deliver_def m1 m2)
    ultimately show ?thesis
      by simp
  qed
  then show ?thesis
    using make_twice [of code s] break_twice [of code s] by blast
qed

theorem make_break_idempotent_witness:
  "length (matrix matrix_init) = MATRIX_ROWS \<and> state matrix_init = INIT
   \<and> (0x1C :: uint8_t) \<noteq> 0x00 \<and> (0x1C :: uint8_t) < 0x80
   \<and> Option.bind (matrix_make 0x1C matrix_init) (matrix_make 0x1C) = matrix_make 0x1C matrix_init
   \<and> Option.bind (matrix_break 0x1C matrix_init) (matrix_break 0x1C) = matrix_break 0x1C matrix_init
   \<and> (\<exists>s1 s2. deliver [0x1C] matrix_init = Some s1 \<and> deliver [0x1C, 0x1C] matrix_init = Some s2
          \<and> matrix s2 = matrix s1)"
proof -
  have init: "length (matrix matrix_init) = MATRIX_ROWS" "state matrix_init = INIT"
    by (simp_all add: matrix_init_def)
  show ?thesis
    using init make_break_idempotent [of "0x1C" matrix_init "0x1C"] by simp
qed

text \<open>
  Claim C7. In every state that a run of the module reaches from power-on,
  \<^verbatim>\<open>matrix_key_count\<close> returns the number of (row, column) pairs at which
  \<^verbatim>\<open>matrix_is_on\<close> is true, and immediately after \<^verbatim>\<open>matrix_clear\<close> it returns 0.
  The count is kept in a byte; it cannot wrap, because no scan code sets the cell
  of code \<open>0x00\<close>, so at most 255 cells are ever on.
\<close>

theorem key_count_exact:
  assumes "run es matrix_init = Some s"
  shows "(\<exists>n. matrix_key_count (matrix s) = Some n \<and> unat n = count_on (matrix s))
       \<and> (\<exists>s'. matrix_clear s = Some s' \<and> matrix_key_count (matrix s') = Some 0
             \<and> count_on (matrix s') = 0)"
proof -
  have inv: "cell0_off s"
    using cell0_off_init assms by (rule cell0_off_run)
  then have ok: "matrix_ok s" and len: "length (matrix s) = MATRIX_ROWS"
    by (simp_all add: cell0_off_def matrix_ok_def)
  have lt: "count_on (matrix s) < 256"
    using inv by (rule count_on_below)
  have kc: "matrix_key_count (matrix s) = Some (of_nat (count_on (matrix s)))"
    using len by (simp add: matrix_key_count_eq count_on_eq)
  have un: "unat (of_nat (count_on (matrix s)) :: uint8_t) = count_on (matrix s)"
    using lt by (simp add: unat_of_nat)
  have first: "\<exists>n. matrix_key_count (matrix s) = Some n \<and> unat n = count_on (matrix s)"
    using kc un by blast
  have z: "popcount8 0 = 0"
    by (simp add: popcount8_def)
  have "matrix_key_count (replicate MATRIX_ROWS 0) = Some 0" "count_on (replicate MATRIX_ROWS 0) = 0"
    by (simp_all add: matrix_key_count_eq count_on_eq z sum_list_replicate)
  then have second: "\<exists>s'. matrix_clear s = Some s' \<and> matrix_key_count (matrix s') = Some 0
             \<and> count_on (matrix s') = 0"
    using ok by (simp add: matrix_clear_wipe)
  show ?thesis using first second by blast
qed

theorem key_count_exact_witness:
  "run [Scan (0x1C, 0), Scan (0xE0, 0), Scan (0x75, 0)] matrix_init
     = Some \<lparr>matrix = (replicate 32 0)[3 := 0x10, 30 := 0x20], is_modified = True,
              state = INIT, calls = []\<rparr>
   \<and> matrix_key_count ((replicate 32 0)[3 := 0x10, 30 := 0x20]) = Some 2
   \<and> count_on ((replicate 32 0)[3 := 0x10, 30 := 0x20]) = 2
   \<and> (\<exists>s'. matrix_clear \<lparr>matrix = (replicate 32 0)[3 := 0x10, 30 := 0x20], is_modified = True,
                            state = INIT, calls = []\<rparr> = Some s'
          \<and> matrix_key_count (matrix s') = Some 0 \<and> count_on (matrix s') = 0)"
proof -
  have r: "run [Scan (0x1C, 0), Scan (0xE0, 0), Scan (0x75, 0)] matrix_init
     = Some \<lparr>matrix = (replicate 32 0)[3 := 0x10, 30 := 0x20], is_modified = True,
              state = INIT, calls = []\<rparr>"
    by code_simp
  have c: "count_on ((replicate 32 0)[3 := 0x10, 30 := 0x20]) = 2"
    by code_simp
  show ?thesis
    using r c key_count_exact [OF r] by (auto simp: word_unat_eq_iff)
qed

text \<open>
  Claim C3 asks that the modified flag be true at the end of a tick whenever the
  matrix changed during the tick, full clears included. \<^verbatim>\<open>matrix_make\<close> and
  \<^verbatim>\<open>matrix_break\<close> set the flag when they change a bit; \<^verbatim>\<open>matrix_clear\<close> does not.
  With the key \<open>0x1C\<close> down and the decoder idle, the overrun byte \<open>0x00\<close> clears
  the matrix, so the matrix after the tick differs from the matrix before it, and
  the flag is false.
\<close>

theorem modified_flag_missed_by_clear:
  "matrix_scan (0x00, 0)
       \<lparr>matrix = (replicate 32 0)[3 := 0x10], is_modified = False, state = INIT, calls = []\<rparr>
     = Some \<lparr>matrix = replicate 32 0, is_modified = False, state = INIT, calls = [ClearKeyboard]\<rparr>
   \<and> (replicate 32 0)[3 := 0x10] \<noteq> replicate 32 (0 :: uint8_t)
   \<and> matrix_is_on ((replicate 32 0)[3 := 0x10]) (ROW 0x1C) (COL 0x1C) = Some True
   \<and> matrix_is_on (replicate 32 0) (ROW 0x1C) (COL 0x1C) = Some False"
  by code_simp

end
